theory Spec2Isabelle
  imports Complex_Main
begin

section \<open>Inventory ledger and daily snapshots: the database model\<close>

text \<open>
  The inventory core of the repository is SQL: the tables \<^verbatim>\<open>products\<close>,
  \<^verbatim>\<open>inventory_history\<close> and \<^verbatim>\<open>daily_inventory_snapshots\<close>, the trigger
  \<^verbatim>\<open>products_quantity_change\<close> (AFTER UPDATE ON products FOR EACH ROW) with its function
  \<^verbatim>\<open>log_inventory_change()\<close>, and the procedure \<^verbatim>\<open>update_daily_snapshot\<close>. The functions
  embedded here are the ones of the migration "Add Consumption Tracking to Inventory", which
  replaces (CREATE OR REPLACE) the bodies of the migration "Create Inventory Tracking System".

  A \<^verbatim>\<open>uuid\<close> is a natural number, a \<^verbatim>\<open>date\<close> is a day number, \<^verbatim>\<open>numeric\<close> is a
  rational and \<^verbatim>\<open>integer\<close> is an int that must stay in the 32-bit range: PostgreSQL raises
  "integer out of range" instead of wrapping. A statement that raises aborts its transaction,
  so a failing operation returns the error and no database.
\<close>

type_synonym uuid = nat
type_synonym date = nat
type_synonym numeric = rat

datatype sql_error =
    numeric_value_out_of_range
  | not_null_violation
  | foreign_key_violation
  | unique_violation
  | check_violation

datatype tg_op = INSERT | UPDATE | DELETE

text \<open>
  \<^verbatim>\<open>inventory_history\<close>: the columns \<^verbatim>\<open>id\<close> (a random uuid) and \<^verbatim>\<open>created_at\<close>
  (\<^verbatim>\<open>now()\<close>) are not stored; the table is the list of its rows in insertion order, which
  stands for the order by creation time.
\<close>

record inventory_history_row =
  hist_product_id :: uuid
  activity_type :: string
  quantity_before :: numeric
  quantity_change :: numeric
  quantity_after :: numeric
  reference_type :: "string option"
  reference_id :: "uuid option"
  hist_notes :: "string option"
  created_by :: "uuid option"

record daily_inventory_snapshots_row =
  snap_product_id :: uuid
  snapshot_date :: date
  opening_stock :: numeric
  purchases :: numeric
  sales :: numeric
  adjustments :: numeric
  closing_stock :: numeric
  max_stock :: numeric

text \<open>
  \<^verbatim>\<open>products\<close> has the primary key \<^verbatim>\<open>id\<close>; the functions read only the column
  \<^verbatim>\<open>quantity integer NOT NULL\<close>, so the table is a map from id to quantity.
\<close>

record db =
  products :: "uuid \<rightharpoonup> int"
  inventory_history :: "inventory_history_row list"
  daily_inventory_snapshots :: "daily_inventory_snapshots_row list"

definition empty_db :: db where
  "empty_db = \<lparr>products = Map.empty, inventory_history = [], daily_inventory_snapshots = []\<rparr>"

subsection \<open>Integer arithmetic of PostgreSQL\<close>

definition int4_ok :: "int \<Rightarrow> bool" where
  "int4_ok i \<longleftrightarrow> - 2147483648 \<le> i \<and> i \<le> 2147483647"

definition int4mi :: "int \<Rightarrow> int \<Rightarrow> sql_error + int" where
  "int4mi a b = (if int4_ok (a - b) then Inr (a - b) else Inl numeric_value_out_of_range)"

definition int4abs :: "int \<Rightarrow> sql_error + int" where
  "int4abs a = (if int4_ok \<bar>a\<bar> then Inr \<bar>a\<bar> else Inl numeric_value_out_of_range)"

subsection \<open>Table constraints\<close>

definition activity_types :: "string list" where
  "activity_types =
     [''opening_stock'', ''purchase'', ''sale'', ''consumption'', ''adjustment'', ''daily_snapshot'']"

definition reference_types :: "string list" where
  "reference_types = [''purchase_order'', ''invoice'', ''manual'', ''system'']"

text \<open>
  INSERT INTO inventory_history: the CHECK constraints on \<^verbatim>\<open>activity_type\<close> and
  \<^verbatim>\<open>reference_type\<close> (NULL passes a CHECK), then the two foreign keys, \<^verbatim>\<open>product_id\<close>
  to \<^verbatim>\<open>products\<close> and \<^verbatim>\<open>created_by\<close> to \<^verbatim>\<open>auth.users\<close> (NULL passes a foreign key).
  \<^verbatim>\<open>auth.users\<close> is a table of the hosting platform and not of the repository, so the
  INSERT takes the ids of its rows as a parameter. The table has no constraint on the three
  quantity columns beyond NOT NULL.
\<close>

definition insert_inventory_history ::
    "uuid set \<Rightarrow> inventory_history_row \<Rightarrow> db \<Rightarrow> sql_error + db" where
  "insert_inventory_history auth_users r d =
     (if activity_type r \<notin> set activity_types then Inl check_violation
      else if (case reference_type r of None \<Rightarrow> False
               | Some t \<Rightarrow> t \<notin> set reference_types) then Inl check_violation
      else if products d (hist_product_id r) = None then Inl foreign_key_violation
      else if (case created_by r of None \<Rightarrow> False
               | Some u \<Rightarrow> u \<notin> auth_users) then Inl foreign_key_violation
      else Inr (d\<lparr>inventory_history := inventory_history d @ [r]\<rparr>))"

definition snapshot_match :: "uuid \<Rightarrow> date \<Rightarrow> daily_inventory_snapshots_row \<Rightarrow> bool" where
  "snapshot_match p day r \<longleftrightarrow> snap_product_id r = p \<and> snapshot_date r = day"

definition snapshots_for :: "db \<Rightarrow> uuid \<Rightarrow> date \<Rightarrow> daily_inventory_snapshots_row list" where
  "snapshots_for d p day = filter (snapshot_match p day) (daily_inventory_snapshots d)"

text \<open>
  INSERT INTO daily_inventory_snapshots: UNIQUE(product_id, snapshot_date), then the foreign
  key to \<^verbatim>\<open>products\<close>.
\<close>

definition insert_daily_inventory_snapshots ::
    "daily_inventory_snapshots_row \<Rightarrow> db \<Rightarrow> sql_error + db" where
  "insert_daily_inventory_snapshots r d =
     (if snapshots_for d (snap_product_id r) (snapshot_date r) \<noteq> [] then Inl unique_violation
      else if products d (snap_product_id r) = None then Inl foreign_key_violation
      else Inr (d\<lparr>daily_inventory_snapshots := daily_inventory_snapshots d @ [r]\<rparr>))"

subsection \<open>update_daily_snapshot\<close>

text \<open>
  The procedure runs two statements. The first is
  \<^verbatim>\<open>SELECT EXISTS (SELECT 1 FROM daily_inventory_snapshots WHERE product_id = p_product_id
  AND snapshot_date = v_today) INTO v_snapshot_exists\<close>.
\<close>

definition snapshot_exists :: "uuid \<Rightarrow> date \<Rightarrow> db \<Rightarrow> bool" where
  "snapshot_exists p_product_id v_today d \<longleftrightarrow> snapshots_for d p_product_id v_today \<noteq> []"

text \<open>The SET list of the UPDATE branch, applied to one matching row.\<close>

definition update_row ::
    "string \<Rightarrow> numeric \<Rightarrow> int \<Rightarrow> daily_inventory_snapshots_row \<Rightarrow> daily_inventory_snapshots_row" where
  "update_row p_activity_type p_quantity quantity r =
     r\<lparr>purchases :=
         (if p_activity_type = ''purchase'' then purchases r + p_quantity else purchases r),
       sales :=
         (if p_activity_type = ''sale'' \<or> p_activity_type = ''consumption''
          then sales r + p_quantity else sales r),
       adjustments :=
         (if p_activity_type = ''adjustment'' then adjustments r + p_quantity else adjustments r),
       closing_stock := of_int quantity,
       max_stock := max (max_stock r) (of_int quantity)\<rparr>"

text \<open>The SELECT list of the INSERT branch; \<^verbatim>\<open>COALESCE(quantity, 0)\<close> of a NOT NULL column.\<close>

definition new_row :: "uuid \<Rightarrow> date \<Rightarrow> string \<Rightarrow> numeric \<Rightarrow> int \<Rightarrow> daily_inventory_snapshots_row" where
  "new_row p_product_id v_today p_activity_type p_quantity quantity =
     \<lparr>snap_product_id = p_product_id,
      snapshot_date = v_today,
      opening_stock = of_int quantity,
      purchases = (if p_activity_type = ''purchase'' then p_quantity else 0),
      sales = (if p_activity_type = ''sale'' \<or> p_activity_type = ''consumption''
               then p_quantity else 0),
      adjustments = (if p_activity_type = ''adjustment'' then p_quantity else 0),
      closing_stock = of_int quantity,
      max_stock = of_int quantity\<rparr>"

text \<open>
  The second statement is the IF on \<^verbatim>\<open>v_snapshot_exists\<close>. In the UPDATE branch the scalar
  subquery \<^verbatim>\<open>(SELECT quantity FROM products WHERE id = p_product_id)\<close> is NULL for an unknown
  product, which the NOT NULL column \<^verbatim>\<open>closing_stock\<close> rejects when a row matches. In the
  INSERT branch \<^verbatim>\<open>INSERT ... SELECT ... FROM products WHERE id = p_product_id\<close> selects no
  row for an unknown product and inserts nothing.
\<close>

definition update_daily_snapshot_body ::
    "bool \<Rightarrow> uuid \<Rightarrow> string \<Rightarrow> numeric \<Rightarrow> date \<Rightarrow> db \<Rightarrow> sql_error + db" where
  "update_daily_snapshot_body v_snapshot_exists p_product_id p_activity_type p_quantity v_today d =
     (if v_snapshot_exists then
        (case products d p_product_id of
           None \<Rightarrow>
             if snapshots_for d p_product_id v_today = [] then Inr d
             else Inl not_null_violation
         | Some quantity \<Rightarrow>
             Inr (d\<lparr>daily_inventory_snapshots :=
                      map (\<lambda>r. if snapshot_match p_product_id v_today r
                                then update_row p_activity_type p_quantity quantity r else r)
                          (daily_inventory_snapshots d)\<rparr>))
      else
        (case products d p_product_id of
           None \<Rightarrow> Inr d
         | Some quantity \<Rightarrow>
             insert_daily_inventory_snapshots
               (new_row p_product_id v_today p_activity_type p_quantity quantity) d))"

definition update_daily_snapshot ::
    "uuid \<Rightarrow> string \<Rightarrow> numeric \<Rightarrow> date \<Rightarrow> db \<Rightarrow> sql_error + db" where
  "update_daily_snapshot p_product_id p_activity_type p_quantity v_today d =
     update_daily_snapshot_body (snapshot_exists p_product_id v_today d)
       p_product_id p_activity_type p_quantity v_today d"

subsection \<open>log_inventory_change and the trigger\<close>

text \<open>
  The trigger function reads \<^verbatim>\<open>TG_OP\<close>, \<^verbatim>\<open>NEW.id\<close>, \<^verbatim>\<open>OLD.quantity\<close>,
  \<^verbatim>\<open>NEW.quantity\<close>, \<^verbatim>\<open>auth.uid()\<close> and, through update_daily_snapshot,
  \<^verbatim>\<open>CURRENT_DATE\<close>. It runs after the row is written, so the database it receives holds
  the new quantity.

  \<^verbatim>\<open>auth.uid()\<close> is NULL or the id of the caller's own row of \<^verbatim>\<open>auth.users\<close>: the UPDATE
  policy of \<^verbatim>\<open>products\<close> admits a caller only through a row of \<^verbatim>\<open>profiles\<close>, whose id
  references \<^verbatim>\<open>auth.users\<close>. The caller's row is all the trigger's INSERT needs of that
  table, so it is what the trigger passes.
\<close>

definition caller_rows :: "uuid option \<Rightarrow> uuid set" where
  "caller_rows auth_uid = (case auth_uid of None \<Rightarrow> {} | Some u \<Rightarrow> {u})"

definition log_inventory_change ::
    "tg_op \<Rightarrow> uuid \<Rightarrow> int \<Rightarrow> int \<Rightarrow> uuid option \<Rightarrow> date \<Rightarrow> db \<Rightarrow> sql_error + db" where
  "log_inventory_change TG_OP NEW_id OLD_quantity NEW_quantity auth_uid current_date d =
     (if TG_OP = UPDATE \<and> OLD_quantity \<noteq> NEW_quantity then
        (let v_activity_type =
               (if NEW_quantity < OLD_quantity then ''consumption'' else ''adjustment'');
             v_notes =
               (if NEW_quantity < OLD_quantity then ''Manual stock consumption/usage''
                else ''Manual stock adjustment'')
         in case int4mi NEW_quantity OLD_quantity of
              Inl e \<Rightarrow> Inl e
            | Inr change \<Rightarrow>
               (case insert_inventory_history (caller_rows auth_uid)
                       \<lparr>hist_product_id = NEW_id,
                        activity_type = v_activity_type,
                        quantity_before = of_int OLD_quantity,
                        quantity_change = of_int change,
                        quantity_after = of_int NEW_quantity,
                        reference_type = Some ''manual'',
                        reference_id = None,
                        hist_notes = Some v_notes,
                        created_by = auth_uid\<rparr> d of
                  Inl e \<Rightarrow> Inl e
                | Inr d1 \<Rightarrow>
                   (case int4abs change of
                      Inl e \<Rightarrow> Inl e
                    | Inr magnitude \<Rightarrow>
                        update_daily_snapshot NEW_id v_activity_type (of_int magnitude)
                          current_date d1)))
      else Inr d)"

text \<open>
  COMPLETE_DATABASE_SCHEMA.sql and the migration "Create Inventory Tracking System" hold the
  body the function had before the consumption migration replaced it: every change is an
  \<open>adjustment\<close> and update_daily_snapshot is not called. It is kept here for comparison;
  the trigger below runs the replacing body.
\<close>

definition log_inventory_change_initial ::
    "tg_op \<Rightarrow> uuid \<Rightarrow> int \<Rightarrow> int \<Rightarrow> uuid option \<Rightarrow> db \<Rightarrow> sql_error + db" where
  "log_inventory_change_initial TG_OP NEW_id OLD_quantity NEW_quantity auth_uid d =
     (if TG_OP = UPDATE \<and> OLD_quantity \<noteq> NEW_quantity then
        (case int4mi NEW_quantity OLD_quantity of
           Inl e \<Rightarrow> Inl e
         | Inr change \<Rightarrow>
             insert_inventory_history (caller_rows auth_uid)
               \<lparr>hist_product_id = NEW_id,
                activity_type = ''adjustment'',
                quantity_before = of_int OLD_quantity,
                quantity_change = of_int change,
                quantity_after = of_int NEW_quantity,
                reference_type = Some ''manual'',
                reference_id = None,
                hist_notes = Some ''Stock level updated'',
                created_by = auth_uid\<rparr> d)
      else Inr d)"

text \<open>
  \<^verbatim>\<open>CREATE TRIGGER products_quantity_change AFTER UPDATE ON products FOR EACH ROW
  EXECUTE FUNCTION log_inventory_change()\<close>.
\<close>

definition products_quantity_change ::
    "uuid \<Rightarrow> int \<Rightarrow> int \<Rightarrow> uuid option \<Rightarrow> date \<Rightarrow> db \<Rightarrow> sql_error + db" where
  "products_quantity_change NEW_id OLD_quantity NEW_quantity auth_uid current_date d =
     log_inventory_change UPDATE NEW_id OLD_quantity NEW_quantity auth_uid current_date d"

text \<open>
  \<^verbatim>\<open>UPDATE products SET quantity = q WHERE id = pid\<close>, the statement every flow of the
  application has for changing a quantity. The value is converted to \<^verbatim>\<open>integer\<close> before
  any row is looked up, so a value out of range raises also when no row matches. No row
  matches an unknown id: nothing is written and the trigger does not fire.
\<close>

definition update_products ::
    "uuid \<Rightarrow> int \<Rightarrow> uuid option \<Rightarrow> date \<Rightarrow> db \<Rightarrow> sql_error + db" where
  "update_products pid q auth_uid current_date d =
     (if \<not> int4_ok q then Inl numeric_value_out_of_range
      else case products d pid of
             None \<Rightarrow> Inr d
           | Some old \<Rightarrow>
               products_quantity_change pid old q auth_uid current_date
                 (d\<lparr>products := (products d)(pid \<mapsto> q)\<rparr>))"

text \<open>
  \<^verbatim>\<open>INSERT INTO products\<close>: the value is converted to \<^verbatim>\<open>integer\<close> first, then the
  primary key rejects a second row for an id; the trigger is an UPDATE trigger and does not
  fire.
\<close>

definition insert_products :: "uuid \<Rightarrow> int \<Rightarrow> db \<Rightarrow> sql_error + db" where
  "insert_products pid q d =
     (if \<not> int4_ok q then Inl numeric_value_out_of_range
      else if products d pid \<noteq> None then Inl unique_violation
      else Inr (d\<lparr>products := (products d)(pid \<mapsto> q)\<rparr>))"

subsection \<open>Clients\<close>

text \<open>
  The statements of a client that add a product or change a quantity. Each runs as its own
  transaction with the caller's \<^verbatim>\<open>auth.uid()\<close> on a calendar day; a transaction that
  raises is rolled back and leaves the database as it was. A DELETE of a product, which
  cascades to both derived tables, is not part of the model.
\<close>

datatype stmt = Insert_product uuid int | Update_quantity uuid int

fun exec :: "stmt \<Rightarrow> uuid option \<Rightarrow> date \<Rightarrow> db \<Rightarrow> sql_error + db" where
  "exec (Insert_product pid q) auth_uid current_date d = insert_products pid q d"
| "exec (Update_quantity pid q) auth_uid current_date d =
     update_products pid q auth_uid current_date d"

definition commit :: "db \<Rightarrow> sql_error + db \<Rightarrow> db" where
  "commit d res = (case res of Inl e \<Rightarrow> d | Inr d' \<Rightarrow> d')"

fun run :: "(stmt \<times> uuid option \<times> date) list \<Rightarrow> db \<Rightarrow> db" where
  "run [] d = d"
| "run ((s, auth_uid, current_date) # rest) d =
     run rest (commit d (exec s auth_uid current_date d))"

section \<open>Notions used in the statements\<close>

text \<open>
  The net effect of update_daily_snapshot on the snapshot table when the product exists with
  quantity \<open>q\<close> (lemma \<open>update_daily_snapshot_known\<close> below proves it of the procedure).
\<close>

definition upsert_rows ::
    "uuid \<Rightarrow> string \<Rightarrow> numeric \<Rightarrow> date \<Rightarrow> int \<Rightarrow> daily_inventory_snapshots_row list
       \<Rightarrow> daily_inventory_snapshots_row list" where
  "upsert_rows p ty m day q rows =
     (if filter (snapshot_match p day) rows = [] then rows @ [new_row p day ty m q]
      else map (\<lambda>r. if snapshot_match p day r then update_row ty m q r else r) rows)"

text \<open>
  The database after a quantity change from \<open>old\<close> to \<open>q\<close> that the trigger logged
  (lemma \<open>update_products_changed\<close> below proves it of the UPDATE statement).
\<close>

definition logged_db :: "uuid \<Rightarrow> int \<Rightarrow> int \<Rightarrow> uuid option \<Rightarrow> date \<Rightarrow> db \<Rightarrow> db" where
  "logged_db pid old q uid day d =
     \<lparr>products = (products d)(pid \<mapsto> q),
      inventory_history = inventory_history d @
        [\<lparr>hist_product_id = pid,
          activity_type = (if q < old then ''consumption'' else ''adjustment''),
          quantity_before = of_int old,
          quantity_change = of_int (q - old),
          quantity_after = of_int q,
          reference_type = Some ''manual'',
          reference_id = None,
          hist_notes = Some (if q < old then ''Manual stock consumption/usage''
                             else ''Manual stock adjustment''),
          created_by = uid\<rparr>],
      daily_inventory_snapshots =
        upsert_rows pid (if q < old then ''consumption'' else ''adjustment'')
          (of_int \<bar>q - old\<bar>) day q (daily_inventory_snapshots d)\<rparr>"

text \<open>Scenario A of the specification starts from one product with quantity 100.\<close>

definition scenario_db :: db where
  "scenario_db =
     \<lparr>products = [1 \<mapsto> 100], inventory_history = [], daily_inventory_snapshots = []\<rparr>"

text \<open>
  The classifier in the specification's words: a decrease is a consumption, an increase an
  adjustment, and an equal quantity is no event.
\<close>

definition classify :: "int \<Rightarrow> int \<Rightarrow> string option" where
  "classify oldQty newQty =
     (if newQty < oldQty then Some ''consumption''
      else if newQty > oldQty then Some ''adjustment''
      else None)"

text \<open>
  The routing table in the specification's words, and the three cumulative counters of a
  snapshot row as a triple (purchases, sales, adjustments).
\<close>

datatype bucket = Purchases | Sales | Adjustments

definition routing :: "string \<Rightarrow> bucket option" where
  "routing category =
     (if category = ''purchase'' then Some Purchases
      else if category = ''sale'' \<or> category = ''consumption'' then Some Sales
      else if category = ''adjustment'' then Some Adjustments
      else None)"

definition buckets :: "daily_inventory_snapshots_row \<Rightarrow> numeric \<times> numeric \<times> numeric" where
  "buckets r = (purchases r, sales r, adjustments r)"

fun add_to :: "bucket option \<Rightarrow> numeric \<Rightarrow> numeric \<times> numeric \<times> numeric
    \<Rightarrow> numeric \<times> numeric \<times> numeric" where
  "add_to None m (p, s, a) = (p, s, a)"
| "add_to (Some Purchases) m (p, s, a) = (p + m, s, a)"
| "add_to (Some Sales) m (p, s, a) = (p, s + m, a)"
| "add_to (Some Adjustments) m (p, s, a) = (p, s, a + m)"

text \<open>
  The ledger of one product, and the invariant that carries continuity from one write to the
  next: every entry satisfies the arithmetic identity, each entry starts where the one before
  it ended, and the last entry ends at the product's current quantity.
\<close>

definition entries_of :: "db \<Rightarrow> uuid \<Rightarrow> inventory_history_row list" where
  "entries_of d p = filter (\<lambda>e. hist_product_id e = p) (inventory_history d)"

definition identity_holds :: "inventory_history_row \<Rightarrow> bool" where
  "identity_holds e \<longleftrightarrow> quantity_after e = quantity_before e + quantity_change e"

definition continuous :: "inventory_history_row list \<Rightarrow> bool" where
  "continuous es \<longleftrightarrow>
     (\<forall>i. Suc i < length es \<longrightarrow> quantity_before (es ! Suc i) = quantity_after (es ! i))"

definition ledger_inv :: "db \<Rightarrow> bool" where
  "ledger_inv d \<longleftrightarrow>
     (\<forall>p. (\<forall>e \<in> set (entries_of d p). identity_holds e) \<and>
          continuous (entries_of d p) \<and>
          (entries_of d p \<noteq> [] \<longrightarrow>
             map_option of_int (products d p) = Some (quantity_after (last (entries_of d p)))))"

text \<open>
  A snapshot row is fresh when its closing stock is the live quantity of its product.
\<close>

definition fresh :: "db \<Rightarrow> uuid \<Rightarrow> date \<Rightarrow> bool" where
  "fresh d p day \<longleftrightarrow>
     (\<forall>r \<in> set (snapshots_for d p day).
        map_option of_int (products d p) = Some (closing_stock r))"

text \<open>
  Rows of the snapshot table are never deleted or reordered, so a row is followed through the
  table by its position. A later version of a row has the same key and opening stock and a
  maximum that is no smaller.
\<close>

definition later_row ::
    "daily_inventory_snapshots_row \<Rightarrow> daily_inventory_snapshots_row \<Rightarrow> bool" where
  "later_row r r' \<longleftrightarrow>
     snap_product_id r' = snap_product_id r \<and> snapshot_date r' = snapshot_date r \<and>
     opening_stock r' = opening_stock r \<and> max_stock r \<le> max_stock r'"

definition extends ::
    "daily_inventory_snapshots_row list \<Rightarrow> daily_inventory_snapshots_row list \<Rightarrow> bool" where
  "extends rows rows' \<longleftrightarrow>
     length rows \<le> length rows' \<and> (\<forall>i < length rows. later_row (rows ! i) (rows' ! i))"

text \<open>
  Scenario B of the specification, as the procedure finds it: the day's snapshot was created
  at quantity 120 and the product row now holds 90.
\<close>

definition scenario_b_db :: db where
  "scenario_b_db =
     \<lparr>products = [1 \<mapsto> 90],
      inventory_history = [],
      daily_inventory_snapshots =
        [\<lparr>snap_product_id = 1, snapshot_date = 0, opening_stock = 120, purchases = 0,
          sales = 0, adjustments = 20, closing_stock = 120, max_stock = 120\<rparr>]\<rparr>"

text \<open>
  Scenarios A and B as the statements that reach the database on day 0: the stock goes from
  100 to 120 and then to 90.
\<close>

definition scenario_ab :: "(stmt \<times> uuid option \<times> date) list" where
  "scenario_ab = [(Update_quantity 1 120, None, 0), (Update_quantity 1 90, None, 0)]"

text \<open>
  At most one snapshot row for each pair of product and date.
\<close>

definition snapshot_unique :: "db \<Rightarrow> bool" where
  "snapshot_unique d \<longleftrightarrow> (\<forall>p day. length (snapshots_for d p day) \<le> 1)"

text \<open>
  Concurrent writers. update_daily_snapshot is two statements, and under READ COMMITTED
  another writer's statement can run between them: a writer then enters the IF with a
  \<^verbatim>\<open>v_snapshot_exists\<close> that it read from an earlier state of the table. A schedule is a
  list of events in the order the database runs them: a whole transaction of a client (an
  UPDATE of a product holds the row lock of the product until it commits), the first
  statement of a writer's call of update_daily_snapshot, which stores the writer's
  \<^verbatim>\<open>v_snapshot_exists\<close>, or the second statement of that call, which uses the stored value.
  A statement that raises rolls its writer back and the table stays as it was.
\<close>

type_synonym writer = nat

datatype event =
    Transaction stmt "uuid option" date
  | Select_exists writer uuid date
  | If_exists writer uuid string numeric date

fun step :: "event \<Rightarrow> db \<times> (writer \<Rightarrow> bool) \<Rightarrow> db \<times> (writer \<Rightarrow> bool)" where
  "step (Transaction s auth_uid current_date) (d, v) =
     (commit d (exec s auth_uid current_date d), v)"
| "step (Select_exists w p_product_id v_today) (d, v) =
     (d, v(w := snapshot_exists p_product_id v_today d))"
| "step (If_exists w p_product_id p_activity_type p_quantity v_today) (d, v) =
     (commit d (update_daily_snapshot_body (v w) p_product_id p_activity_type p_quantity
        v_today d), v)"

fun schedule :: "event list \<Rightarrow> db \<times> (writer \<Rightarrow> bool) \<Rightarrow> db \<times> (writer \<Rightarrow> bool)" where
  "schedule [] c = c"
| "schedule (e # es) c = schedule es (step e c)"

text \<open>
  Scenario E of the specification as a race: writers 1 and 2 both find no snapshot of product
  1 for day 0, then both enter the INSERT branch.
\<close>

definition scenario_e :: "event list" where
  "scenario_e =
     [Select_exists 1 1 0, Select_exists 2 1 0,
      If_exists 1 1 ''purchase'' 5 0, If_exists 2 1 ''purchase'' 3 0]"

text \<open>
  A ledger row with a zero change whose quantity_after is not quantity_before. With the
  change 150 in place of 0 it is a row that satisfies the arithmetic identity.
\<close>

definition zero_delta_row :: inventory_history_row where
  "zero_delta_row =
     \<lparr>hist_product_id = 1, activity_type = ''adjustment'', quantity_before = 100,
      quantity_change = 0, quantity_after = 250, reference_type = Some ''manual'',
      reference_id = None, hist_notes = None, created_by = None\<rparr>"

section \<open>The procedure and the trigger, step by step\<close>

lemma snapshot_match_update_row [simp]:
  "snapshot_match p day (update_row ty m q r) = snapshot_match p day r"
  by (simp add: snapshot_match_def update_row_def)

lemma snapshot_match_new_row [simp]:
  "snapshot_match p day (new_row p' day' ty m q) \<longleftrightarrow> p' = p \<and> day' = day"
  by (simp add: snapshot_match_def new_row_def)

lemma filter_map_update_row:
  "filter (snapshot_match p day)
     (map (\<lambda>r. if snapshot_match p' day' r then update_row ty m q r else r) rows) =
   map (\<lambda>r. if snapshot_match p' day' r then update_row ty m q r else r)
     (filter (snapshot_match p day) rows)"
  by (induction rows) auto

lemma update_daily_snapshot_create:
  assumes "products d p = Some q" and "snapshots_for d p day = []"
  shows "update_daily_snapshot p ty m day d =
           Inr (d\<lparr>daily_inventory_snapshots :=
                    daily_inventory_snapshots d @ [new_row p day ty m q]\<rparr>)"
  using assms
  by (simp add: update_daily_snapshot_def update_daily_snapshot_body_def snapshot_exists_def
      insert_daily_inventory_snapshots_def new_row_def)

lemma update_daily_snapshot_update:
  assumes "products d p = Some q" and "snapshots_for d p day \<noteq> []"
  shows "update_daily_snapshot p ty m day d =
           Inr (d\<lparr>daily_inventory_snapshots :=
                    map (\<lambda>r. if snapshot_match p day r then update_row ty m q r else r)
                      (daily_inventory_snapshots d)\<rparr>)"
  using assms
  by (simp add: update_daily_snapshot_def update_daily_snapshot_body_def snapshot_exists_def)

lemma update_daily_snapshot_unknown:
  assumes "products d p = None" and "snapshots_for d p day = []"
  shows "update_daily_snapshot p ty m day d = Inr d"
  using assms
  by (simp add: update_daily_snapshot_def update_daily_snapshot_body_def snapshot_exists_def)

lemma update_daily_snapshot_known:
  assumes "products d p = Some q"
  shows "update_daily_snapshot p ty m day d =
           Inr (d\<lparr>daily_inventory_snapshots :=
                    upsert_rows p ty m day q (daily_inventory_snapshots d)\<rparr>)"
proof (cases "snapshots_for d p day = []")
  case True
  with assms show ?thesis
    by (simp add: update_daily_snapshot_create upsert_rows_def snapshots_for_def)
next
  case False
  with assms show ?thesis
    by (simp add: update_daily_snapshot_update upsert_rows_def snapshots_for_def)
qed

lemma caller_is_known:
  "(case uid of None \<Rightarrow> False | Some u \<Rightarrow> u \<notin> caller_rows uid) = False"
  by (simp add: caller_rows_def split: option.splits)

lemma update_products_changed:
  assumes "products d pid = Some old" and "int4_ok q" and "q \<noteq> old"
      and "\<bar>q - old\<bar> \<le> 2147483647"
  shows "update_products pid q uid day d = Inr (logged_db pid old q uid day d)"
proof -
  have "int4_ok (q - old)" and "int4_ok \<bar>q - old\<bar>"
    using assms(4) by (auto simp add: int4_ok_def)
  with assms(1,2,3) show ?thesis
    by (simp add: update_products_def products_quantity_change_def log_inventory_change_def
        int4mi_def int4abs_def insert_inventory_history_def activity_types_def
        reference_types_def caller_is_known update_daily_snapshot_known Let_def logged_db_def)
qed

lemma update_products_overflow:
  assumes "products d pid = Some old" and "int4_ok q" and "2147483647 < \<bar>q - old\<bar>"
  shows "update_products pid q uid day d = Inl numeric_value_out_of_range"
  using assms
  by (auto simp add: update_products_def products_quantity_change_def log_inventory_change_def
        int4mi_def int4abs_def insert_inventory_history_def activity_types_def
        reference_types_def caller_is_known Let_def int4_ok_def split: sum.splits)

lemma update_products_same:
  assumes "products d pid = Some q" and "int4_ok q"
  shows "update_products pid q uid day d = Inr d"
  using assms
  by (simp add: update_products_def products_quantity_change_def log_inventory_change_def
      map_upd_triv)

lemma update_products_unknown:
  assumes "products d pid = None" and "int4_ok q"
  shows "update_products pid q uid day d = Inr d"
  using assms by (simp add: update_products_def)

lemma update_products_out_of_range:
  assumes "\<not> int4_ok q"
  shows "update_products pid q uid day d = Inl numeric_value_out_of_range"
  using assms by (simp add: update_products_def)

lemma update_products_cases:
  assumes "update_products pid q uid day d = Inr d'"
  obtains (unchanged) "d' = d"
  | (logged) old where "products d pid = Some old" and "int4_ok q" and "q \<noteq> old"
      and "\<bar>q - old\<bar> \<le> 2147483647" and "d' = logged_db pid old q uid day d"
proof (cases "products d pid")
  case None
  have "int4_ok q"
    using assms by (auto simp add: update_products_def split: if_splits)
  with None assms unchanged show ?thesis by (simp add: update_products_unknown)
next
  case (Some old)
  have ok: "int4_ok q"
    using assms by (auto simp add: update_products_def split: if_splits)
  show ?thesis
  proof (cases "q = old")
    case True
    with assms Some ok unchanged show ?thesis by (simp add: update_products_same)
  next
    case False
    have small: "\<bar>q - old\<bar> \<le> 2147483647"
    proof (rule ccontr)
      assume "\<not> \<bar>q - old\<bar> \<le> 2147483647"
      then have "2147483647 < \<bar>q - old\<bar>" by simp
      from update_products_overflow [OF Some ok this] assms show False by simp
    qed
    from update_products_changed [OF Some ok False small] assms
    have "d' = logged_db pid old q uid day d" by simp
    with Some ok False small logged show ?thesis by blast
  qed
qed

lemma nonnegative_stock_fits:
  assumes "0 \<le> old" and "0 \<le> q" and "int4_ok old" and "int4_ok q"
  shows "\<bar>q - old\<bar> \<le> 2147483647"
  using assms by (auto simp add: int4_ok_def)

lemma buckets_update_row:
  "buckets (update_row ty m q r) = add_to (routing ty) m (buckets r)"
  by (simp add: buckets_def update_row_def routing_def)

lemma buckets_new_row:
  "buckets (new_row p day ty m q) = add_to (routing ty) m (0, 0, 0)"
  by (simp add: buckets_def new_row_def routing_def)

lemma snapshots_for_upsert:
  "filter (snapshot_match p day) (upsert_rows p ty m day q rows) =
     (if filter (snapshot_match p day) rows = [] then [new_row p day ty m q]
      else map (update_row ty m q) (filter (snapshot_match p day) rows))"
  by (simp add: upsert_rows_def filter_map_update_row cong: map_cong)

lemma continuous_snoc:
  assumes "continuous es" and "es \<noteq> [] \<longrightarrow> quantity_before e = quantity_after (last es)"
  shows "continuous (es @ [e])"
  unfolding continuous_def
proof (intro allI impI)
  fix i assume i: "Suc i < length (es @ [e])"
  show "quantity_before ((es @ [e]) ! Suc i) = quantity_after ((es @ [e]) ! i)"
  proof (cases "Suc i < length es")
    case True
    with assms(1) show ?thesis by (simp add: continuous_def nth_append)
  next
    case False
    with i have eq: "Suc i = length es" by simp
    then have ne: "es \<noteq> []" by auto
    from eq have "es ! i = last es" by (metis diff_Suc_1 last_conv_nth ne)
    with eq ne assms(2) show ?thesis by (simp add: nth_append)
  qed
qed

lemma entries_of_logged:
  "entries_of (logged_db pid old q uid day d) p =
     entries_of d p @
       (if p = pid then [last (inventory_history (logged_db pid old q uid day d))] else [])"
  by (simp add: entries_of_def logged_db_def)

lemma ledger_inv_logged:
  assumes inv: "ledger_inv d" and old: "products d pid = Some old"
  shows "ledger_inv (logged_db pid old q uid day d)"
  unfolding ledger_inv_def
proof (intro allI)
  fix p
  let ?d' = "logged_db pid old q uid day d"
  let ?e = "last (inventory_history ?d')"
  from inv have a: "\<forall>e \<in> set (entries_of d p). identity_holds e"
    and c: "continuous (entries_of d p)"
    and l: "entries_of d p \<noteq> [] \<longrightarrow>
             map_option of_int (products d p) = Some (quantity_after (last (entries_of d p)))"
    by (simp_all add: ledger_inv_def)
  have e_id: "identity_holds ?e" by (simp add: logged_db_def identity_holds_def)
  have e_before: "quantity_before ?e = of_int old" by (simp add: logged_db_def)
  have e_after: "quantity_after ?e = of_int q" by (simp add: logged_db_def)
  show "(\<forall>e \<in> set (entries_of ?d' p). identity_holds e) \<and> continuous (entries_of ?d' p) \<and>
        (entries_of ?d' p \<noteq> [] \<longrightarrow>
           map_option of_int (products ?d' p) = Some (quantity_after (last (entries_of ?d' p))))"
  proof (cases "p = pid")
    case False
    then have "entries_of ?d' p = entries_of d p" by (simp add: entries_of_logged)
    moreover from False have "products ?d' p = products d p" by (simp add: logged_db_def)
    ultimately show ?thesis using a c l by simp
  next
    case True
    then have es: "entries_of ?d' p = entries_of d p @ [?e]" by (simp add: entries_of_logged)
    from True l old e_before
    have "entries_of d p \<noteq> [] \<longrightarrow> quantity_before ?e = quantity_after (last (entries_of d p))"
      by auto
    with c have "continuous (entries_of d p @ [?e])" by (rule continuous_snoc)
    moreover from True have "products ?d' p = Some q" by (simp add: logged_db_def)
    ultimately show ?thesis using es a e_id e_after by simp
  qed
qed

lemma ledger_inv_update_products:
  assumes "ledger_inv d" and "update_products pid q uid day d = Inr d'"
  shows "ledger_inv d'"
  using assms(2)
proof (cases rule: update_products_cases)
  case unchanged
  with assms(1) show ?thesis by simp
next
  case (logged old)
  with assms(1) show ?thesis by (simp add: ledger_inv_logged)
qed

lemma ledger_inv_insert_products:
  assumes inv: "ledger_inv d" and ins: "insert_products pid q d = Inr d'"
  shows "ledger_inv d'"
proof -
  from ins have none: "products d pid = None"
    and d': "d' = d\<lparr>products := (products d)(pid \<mapsto> q)\<rparr>"
    by (auto simp add: insert_products_def split: if_splits)
  from inv none have empty: "entries_of d pid = []"
    by (auto simp add: ledger_inv_def)
  have same: "entries_of d' p = entries_of d p" for p
    by (simp add: d' entries_of_def)
  show ?thesis
    unfolding ledger_inv_def
  proof (intro allI)
    fix p
    show "(\<forall>e\<in>set (entries_of d' p). identity_holds e) \<and> continuous (entries_of d' p) \<and>
         (entries_of d' p \<noteq> [] \<longrightarrow>
          map_option of_int (products d' p) = Some (quantity_after (last (entries_of d' p))))"
    proof (cases "p = pid")
      case True
      with empty same show ?thesis by (simp add: continuous_def)
    next
      case False
      then have "products d' p = products d p" by (simp add: d')
      with inv same show ?thesis by (simp add: ledger_inv_def)
    qed
  qed
qed

lemma ledger_inv_exec:
  assumes "ledger_inv d"
  shows "ledger_inv (commit d (exec s uid day d))"
proof (cases "exec s uid day d")
  case (Inl e)
  with assms show ?thesis by (simp add: commit_def)
next
  case (Inr d')
  with assms have "ledger_inv d'"
    by (cases s) (auto intro: ledger_inv_update_products ledger_inv_insert_products)
  with Inr show ?thesis by (simp add: commit_def)
qed

lemma ledger_inv_run:
  assumes "ledger_inv d"
  shows "ledger_inv (run reqs d)"
  using assms
proof (induction reqs arbitrary: d)
  case Nil
  then show ?case by simp
next
  case (Cons x reqs)
  obtain s uid day where x: "x = (s, uid, day)" by (cases x) auto
  from Cons.prems have "ledger_inv (commit d (exec s uid day d))" by (rule ledger_inv_exec)
  then show ?case unfolding x by (simp add: Cons.IH)
qed

lemma ledger_inv_empty: "ledger_inv empty_db"
  by (simp add: ledger_inv_def entries_of_def empty_db_def continuous_def)

lemma snapshots_for_upsert_other:
  assumes "p \<noteq> p' \<or> day \<noteq> day'"
  shows "filter (snapshot_match p day) (upsert_rows p' ty m day' q rows) =
         filter (snapshot_match p day) rows"
proof -
  have "map (\<lambda>r. if snapshot_match p' day' r then update_row ty m q r else r)
          (filter (snapshot_match p day) rows) = filter (snapshot_match p day) rows"
    using assms by (intro map_idI) (auto simp add: snapshot_match_def)
  with assms show ?thesis
    by (auto simp add: upsert_rows_def filter_map_update_row)
qed

lemma extends_refl: "extends rows rows"
  by (simp add: extends_def later_row_def)

lemma later_row_refl: "later_row r r"
  by (simp add: later_row_def)

lemma later_row_trans:
  assumes "later_row a b" and "later_row b c"
  shows "later_row a c"
  using assms by (auto simp add: later_row_def)

lemma extends_trans:
  assumes "extends a b" and "extends b c"
  shows "extends a c"
  unfolding extends_def
proof (intro conjI allI impI)
  from assms show "length a \<le> length c" by (simp add: extends_def)
next
  fix i assume i: "i < length a"
  with assms(1) have "later_row (a ! i) (b ! i)" and "i < length b"
    by (simp_all add: extends_def)
  moreover with assms(2) have "later_row (b ! i) (c ! i)" by (simp add: extends_def)
  ultimately show "later_row (a ! i) (c ! i)" by (blast intro: later_row_trans)
qed

lemma later_row_update_row: "later_row r (update_row ty m q r)"
  by (simp add: later_row_def update_row_def)

lemma extends_upsert: "extends rows (upsert_rows p ty m day q rows)"
  by (simp add: extends_def upsert_rows_def nth_append later_row_update_row later_row_refl)

lemma extends_update_daily_snapshot:
  assumes "update_daily_snapshot p ty m day d = Inr d'"
  shows "extends (daily_inventory_snapshots d) (daily_inventory_snapshots d')"
proof (cases "products d p")
  case None
  with assms have "d' = d"
    by (auto simp add: update_daily_snapshot_def update_daily_snapshot_body_def
        snapshot_exists_def split: if_splits)
  then show ?thesis by (simp add: extends_refl)
next
  case (Some q)
  from update_daily_snapshot_known [OF Some] assms
  have "daily_inventory_snapshots d' = upsert_rows p ty m day q (daily_inventory_snapshots d)"
    by auto
  then show ?thesis by (simp add: extends_upsert)
qed

lemma extends_exec:
  "extends (daily_inventory_snapshots d) (daily_inventory_snapshots (commit d (exec s uid day d)))"
proof (cases "exec s uid day d")
  case (Inl e)
  then show ?thesis by (simp add: commit_def extends_refl)
next
  case (Inr d')
  have "extends (daily_inventory_snapshots d) (daily_inventory_snapshots d')"
  proof (cases s)
    case (Insert_product pid q)
    with Inr have "daily_inventory_snapshots d' = daily_inventory_snapshots d"
      by (auto simp add: insert_products_def split: if_splits)
    then show ?thesis by (simp add: extends_refl)
  next
    case (Update_quantity pid q)
    with Inr have "update_products pid q uid day d = Inr d'" by simp
    then show ?thesis
    proof (cases rule: update_products_cases)
      case unchanged
      then show ?thesis by (simp add: extends_refl)
    next
      case (logged old)
      then show ?thesis by (simp add: logged_db_def extends_upsert)
    qed
  qed
  with Inr show ?thesis by (simp add: commit_def)
qed

lemma extends_run:
  "extends (daily_inventory_snapshots d) (daily_inventory_snapshots (run reqs d))"
proof (induction reqs arbitrary: d)
  case Nil
  show ?case by (simp add: extends_refl)
next
  case (Cons x reqs)
  obtain s uid day where x: "x = (s, uid, day)" by (cases x) auto
  have "extends (daily_inventory_snapshots d)
          (daily_inventory_snapshots (commit d (exec s uid day d)))"
    by (rule extends_exec)
  moreover have "extends (daily_inventory_snapshots (commit d (exec s uid day d)))
          (daily_inventory_snapshots (run reqs (commit d (exec s uid day d))))"
    by (rule Cons.IH)
  ultimately show ?case unfolding x by (simp add: extends_trans)
qed

lemma fresh_logged:
  assumes "fresh d p day" and "products d pid = Some old"
  shows "fresh (logged_db pid old q uid day d) p day"
proof (cases "p = pid")
  case True
  then show ?thesis
    by (auto simp add: fresh_def snapshots_for_def logged_db_def snapshots_for_upsert
        update_row_def new_row_def)
next
  case False
  then have "snapshots_for (logged_db pid old q uid day d) p day = snapshots_for d p day"
    by (simp add: snapshots_for_def logged_db_def snapshots_for_upsert_other)
  moreover from False have "products (logged_db pid old q uid day d) p = products d p"
    by (simp add: logged_db_def)
  ultimately show ?thesis using assms(1) by (simp add: fresh_def)
qed

lemma fresh_exec:
  assumes "fresh d p day"
  shows "fresh (commit d (exec s uid day d)) p day"
proof (cases "exec s uid day d")
  case (Inl e)
  with assms show ?thesis by (simp add: commit_def)
next
  case (Inr d')
  have "fresh d' p day"
  proof (cases s)
    case (Insert_product pid q)
    with Inr have none: "products d pid = None"
      and d': "d' = d\<lparr>products := (products d)(pid \<mapsto> q)\<rparr>"
      by (auto simp add: insert_products_def split: if_splits)
    show ?thesis
    proof (cases "p = pid")
      case True
      with assms none have "snapshots_for d p day = []"
        by (cases "snapshots_for d p day") (auto simp add: fresh_def)
      then show ?thesis by (simp add: fresh_def d' snapshots_for_def)
    next
      case False
      with assms show ?thesis by (simp add: fresh_def d' snapshots_for_def)
    qed
  next
    case (Update_quantity pid q)
    with Inr have "update_products pid q uid day d = Inr d'" by simp
    then show ?thesis
    proof (cases rule: update_products_cases)
      case unchanged
      with assms show ?thesis by simp
    next
      case (logged old)
      with assms show ?thesis by (simp add: fresh_logged)
    qed
  qed
  with Inr show ?thesis by (simp add: commit_def)
qed

lemma fresh_run:
  assumes "fresh d p day" and "\<forall>x \<in> set reqs. snd (snd x) = day"
  shows "fresh (run reqs d) p day"
  using assms
proof (induction reqs arbitrary: d)
  case Nil
  then show ?case by simp
next
  case (Cons x reqs)
  obtain s uid day' where x: "x = (s, uid, day')" by (cases x) auto
  with Cons.prems(2) have day: "day' = day" by simp
  from Cons.prems(1) have "fresh (commit d (exec s uid day d)) p day" by (rule fresh_exec)
  with Cons.prems(2) show ?case unfolding x day by (simp add: Cons.IH)
qed

lemma unique_upsert:
  assumes "\<forall>p day. length (filter (snapshot_match p day) rows) \<le> 1"
  shows "length (filter (snapshot_match p day) (upsert_rows p0 ty m day0 q rows)) \<le> 1"
proof (cases "p = p0 \<and> day = day0")
  case True
  with assms show ?thesis by (simp add: snapshots_for_upsert)
next
  case False
  then have "p \<noteq> p0 \<or> day \<noteq> day0" by simp
  with assms show ?thesis by (simp add: snapshots_for_upsert_other)
qed

lemma snapshot_unique_body:
  assumes "snapshot_unique d" and "update_daily_snapshot_body b p ty m day d = Inr d'"
  shows "snapshot_unique d'"
proof (cases "products d p")
  case None
  with assms(2) have "d' = d"
    by (auto simp add: update_daily_snapshot_body_def split: if_splits)
  with assms(1) show ?thesis by simp
next
  case (Some q)
  show ?thesis
  proof (cases b)
    case True
    with Some assms(2) have "daily_inventory_snapshots d' =
        map (\<lambda>r. if snapshot_match p day r then update_row ty m q r else r)
          (daily_inventory_snapshots d)"
      by (auto simp add: update_daily_snapshot_body_def)
    with assms(1) show ?thesis
      by (simp add: snapshot_unique_def snapshots_for_def filter_map_update_row)
  next
    case False
    with Some assms(2)
    have ins: "insert_daily_inventory_snapshots (new_row p day ty m q) d = Inr d'"
      by (simp add: update_daily_snapshot_body_def)
    then have none: "snapshots_for d p day = []"
      and d': "daily_inventory_snapshots d' =
        daily_inventory_snapshots d @ [new_row p day ty m q]"
      by (auto simp add: insert_daily_inventory_snapshots_def new_row_def split: if_splits)
    show ?thesis
      unfolding snapshot_unique_def
    proof (intro allI)
      fix p' day'
      show "length (snapshots_for d' p' day') \<le> 1"
      proof (cases "p' = p \<and> day' = day")
        case True
        with none d' show ?thesis by (simp add: snapshots_for_def)
      next
        case False
        with d' have "snapshots_for d' p' day' = snapshots_for d p' day'"
          by (auto simp add: snapshots_for_def)
        with assms(1) show ?thesis by (simp add: snapshot_unique_def)
      qed
    qed
  qed
qed

lemma snapshot_unique_exec:
  assumes "snapshot_unique d"
  shows "snapshot_unique (commit d (exec s uid day d))"
proof (cases "exec s uid day d")
  case (Inl e)
  with assms show ?thesis by (simp add: commit_def)
next
  case (Inr d')
  have "snapshot_unique d'"
  proof (cases s)
    case (Insert_product pid q)
    with Inr have "daily_inventory_snapshots d' = daily_inventory_snapshots d"
      by (auto simp add: insert_products_def split: if_splits)
    with assms show ?thesis by (simp add: snapshot_unique_def snapshots_for_def)
  next
    case (Update_quantity pid q)
    with Inr have "update_products pid q uid day d = Inr d'" by simp
    then show ?thesis
    proof (cases rule: update_products_cases)
      case unchanged
      with assms show ?thesis by simp
    next
      case (logged old)
      from assms
      have "\<forall>p day. length (filter (snapshot_match p day) (daily_inventory_snapshots d)) \<le> 1"
        by (simp add: snapshot_unique_def snapshots_for_def)
      then have "length (filter (snapshot_match p' day')
          (upsert_rows pid ty m day q (daily_inventory_snapshots d))) \<le> 1" for p' day' ty m
        by (rule unique_upsert)
      then have "length (snapshots_for (logged_db pid old q uid day d) p' day') \<le> 1"
        for p' day'
        by (simp only: snapshots_for_def logged_db_def db.simps)
      with logged show ?thesis by (simp only: snapshot_unique_def) blast
    qed
  qed
  with Inr show ?thesis by (simp add: commit_def)
qed

lemma snapshot_unique_step:
  assumes "snapshot_unique (fst c)"
  shows "snapshot_unique (fst (step e c))"
proof -
  obtain d v where c: "c = (d, v)" by (cases c) auto
  show ?thesis
  proof (cases e)
    case (Transaction s uid day)
    with assms c show ?thesis by (simp add: snapshot_unique_exec)
  next
    case (Select_exists w p day)
    with assms c show ?thesis by simp
  next
    case (If_exists w p ty m day)
    show ?thesis
    proof (cases "update_daily_snapshot_body (v w) p ty m day d")
      case (Inl err)
      with assms c If_exists show ?thesis by (simp add: commit_def)
    next
      case (Inr d')
      with assms c have "snapshot_unique d'" by (auto intro: snapshot_unique_body)
      with Inr c If_exists show ?thesis by (simp add: commit_def)
    qed
  qed
qed

lemma snapshot_unique_schedule:
  assumes "snapshot_unique (fst c)"
  shows "snapshot_unique (fst (schedule es c))"
  using assms
  by (induction es arbitrary: c) (simp_all add: snapshot_unique_step)

text \<open>
  The earlier body of the trigger function logs a decrease as an adjustment and leaves the
  snapshot table alone.
\<close>

lemma log_inventory_change_initial_decrease:
  assumes "products d pid \<noteq> None" and "q < old" and "int4_ok (q - old)"
  shows "\<exists>e. log_inventory_change_initial UPDATE pid old q uid d =
             Inr (d\<lparr>inventory_history := inventory_history d @ [e]\<rparr>) \<and>
           activity_type e = ''adjustment''"
  using assms
  by (auto simp add: log_inventory_change_initial_def int4mi_def insert_inventory_history_def
      activity_types_def reference_types_def caller_is_known)

section \<open>The claims\<close>

subsection \<open>C1: the arithmetic identity and the continuity of the ledger\<close>

text \<open>
  C1. Starting from a ledger that satisfies the invariant (the empty one does), after any
  sequence of product inserts and quantity updates, on any days and by any users, every
  ledger entry of every product satisfies quantity_after = quantity_before + quantity_change,
  and of two consecutive entries of a product the later one's quantity_before is the earlier
  one's quantity_after.
\<close>

theorem ledger_identity_and_continuity:
  assumes "ledger_inv d"
  shows "(\<forall>e \<in> set (entries_of (run reqs d) p).
            quantity_after e = quantity_before e + quantity_change e) \<and>
         (\<forall>i. Suc i < length (entries_of (run reqs d) p) \<longrightarrow>
            quantity_before (entries_of (run reqs d) p ! Suc i) =
            quantity_after (entries_of (run reqs d) p ! i))"
proof -
  from assms have "ledger_inv (run reqs d)" by (rule ledger_inv_run)
  then show ?thesis
    by (simp add: ledger_inv_def identity_holds_def continuous_def)
qed

theorem ledger_identity_and_continuity_witness:
  "ledger_inv scenario_db \<and>
   length (entries_of (run scenario_ab scenario_db) 1) = 2 \<and>
   quantity_after (entries_of (run scenario_ab scenario_db) 1 ! 0) =
     quantity_before (entries_of (run scenario_ab scenario_db) 1 ! 0) +
     quantity_change (entries_of (run scenario_ab scenario_db) 1 ! 0) \<and>
   quantity_before (entries_of (run scenario_ab scenario_db) 1 ! Suc 0) =
     quantity_after (entries_of (run scenario_ab scenario_db) 1 ! 0)"
proof -
  have inv: "ledger_inv scenario_db"
    by (simp add: ledger_inv_def entries_of_def scenario_db_def continuous_def)
  have len: "length (entries_of (run scenario_ab scenario_db) 1) = 2"
    by code_simp
  then have mem: "entries_of (run scenario_ab scenario_db) 1 ! 0 \<in>
      set (entries_of (run scenario_ab scenario_db) 1)"
    by simp
  note inst = ledger_identity_and_continuity [OF inv, of scenario_ab 1]
  from inst mem have "quantity_after (entries_of (run scenario_ab scenario_db) 1 ! 0) =
     quantity_before (entries_of (run scenario_ab scenario_db) 1 ! 0) +
     quantity_change (entries_of (run scenario_ab scenario_db) 1 ! 0)"
    by blast
  moreover from inst len
  have "quantity_before (entries_of (run scenario_ab scenario_db) 1 ! Suc 0) =
     quantity_after (entries_of (run scenario_ab scenario_db) 1 ! 0)"
    by simp
  ultimately show ?thesis using inv len by simp
qed

subsection \<open>C2: classification by the sign of the change\<close>

text \<open>
  C2. A quantity change sent without a category is classified from the old and the new
  quantity alone: the UPDATE of an existing product appends one ledger entry with activity
  type \<open>consumption\<close> when the new quantity is smaller and \<open>adjustment\<close> when it is
  larger, exactly as \<open>classify\<close> says, and appends nothing and changes nothing when the
  quantities are equal. The only other outcome is the error "integer out of range", raised
  when the difference does not fit 32 bits.
\<close>

theorem classification_by_sign:
  assumes "products d pid = Some old" and "int4_ok q"
  shows "if \<bar>q - old\<bar> \<le> 2147483647
         then \<exists>d' new. update_products pid q uid day d = Inr d' \<and>
                inventory_history d' = inventory_history d @ new \<and>
                map activity_type new = (case classify old q of None \<Rightarrow> [] | Some c \<Rightarrow> [c]) \<and>
                (classify old q = None \<longrightarrow> d' = d)
         else update_products pid q uid day d = Inl numeric_value_out_of_range"
proof (cases "\<bar>q - old\<bar> \<le> 2147483647")
  case False
  then have "2147483647 < \<bar>q - old\<bar>" by simp
  from update_products_overflow [OF assms this] False show ?thesis by simp
next
  case small: True
  show ?thesis
  proof (cases "q = old")
    case True
    with assms have "update_products pid q uid day d = Inr d"
      by (simp add: update_products_same)
    with True small show ?thesis by (simp add: classify_def)
  next
    case False
    from update_products_changed [OF assms False small]
    have "update_products pid q uid day d = Inr (logged_db pid old q uid day d)" .
    moreover have "inventory_history (logged_db pid old q uid day d) =
        inventory_history d @ [last (inventory_history (logged_db pid old q uid day d))]"
      by (simp add: logged_db_def)
    moreover have "map activity_type [last (inventory_history (logged_db pid old q uid day d))] =
        (case classify old q of None \<Rightarrow> [] | Some c \<Rightarrow> [c])"
      using False by (simp add: logged_db_def classify_def)
    moreover have "classify old q \<noteq> None"
      using False by (simp add: classify_def)
    ultimately show ?thesis using small by auto
  qed
qed

text \<open>Scenario C in small: a manual edit from 100 to 95 is logged as a consumption.\<close>

theorem classification_by_sign_witness:
  "products scenario_db 1 = Some 100 \<and> int4_ok 95 \<and>
   (\<exists>d' new. update_products 1 95 None 0 scenario_db = Inr d' \<and>
      inventory_history d' = inventory_history scenario_db @ new \<and>
      map activity_type new = [''consumption''])"
  using classification_by_sign [of scenario_db 1 100 95 None 0]
  by (simp add: scenario_db_def int4_ok_def classify_def)

subsection \<open>C3: the bucket of each category\<close>

text \<open>
  C3. For a known product, update_daily_snapshot adds the magnitude to exactly the counter
  the routing table names for the category: \<open>purchase\<close> to purchases, \<open>sale\<close> and
  \<open>consumption\<close> to sales, \<open>adjustment\<close> to adjustments, and nothing for
  \<open>opening_stock\<close>, \<open>daily_snapshot\<close> or any other text. A new row counts from zero, an
  existing row from its own counters.
\<close>

theorem magnitude_goes_to_routed_bucket:
  assumes "products d p = Some q"
  shows "\<exists>d'. update_daily_snapshot p ty m day d = Inr d' \<and>
           map buckets (snapshots_for d' p day) =
             (if snapshots_for d p day = [] then [add_to (routing ty) m (0, 0, 0)]
              else map (add_to (routing ty) m) (map buckets (snapshots_for d p day)))"
  using assms
  by (simp add: update_daily_snapshot_known snapshots_for_def snapshots_for_upsert
      buckets_new_row buckets_update_row)

theorem magnitude_goes_to_routed_bucket_witness:
  "products scenario_db 1 = Some 100 \<and>
   (\<exists>d'. update_daily_snapshot 1 ''sale'' 30 0 scenario_db = Inr d' \<and>
      map buckets (snapshots_for d' 1 0) = [(0, 30, 0)])"
  using magnitude_goes_to_routed_bucket [of scenario_db 1 100 "''sale''" 30 0]
  by (simp add: scenario_db_def snapshots_for_def routing_def)

subsection \<open>C4: the closing stock follows the product row\<close>

text \<open>
  C4. After a quantity-changing UPDATE of a product, whatever the database was before, the
  day's snapshot of the product exists and its closing stock is the product's new quantity.
  Over a sequence: when the day's snapshot of a product is fresh (as it is when the day has no
  snapshot yet), it stays fresh through every sequence of statements of that day, so after
  the last write its closing stock is the live quantity.
\<close>

theorem closing_stock_is_live_quantity:
  "(products d pid = Some old \<and> int4_ok q \<and> q \<noteq> old \<and> \<bar>q - old\<bar> \<le> 2147483647 \<longrightarrow>
      (\<exists>d'. update_products pid q uid day d = Inr d' \<and> products d' pid = Some q \<and>
         snapshots_for d' pid day \<noteq> [] \<and>
         (\<forall>r \<in> set (snapshots_for d' pid day). closing_stock r = of_int q))) \<and>
   (fresh d pid day \<and> (\<forall>x \<in> set reqs. snd (snd x) = day) \<longrightarrow>
      (\<forall>r \<in> set (snapshots_for (run reqs d) pid day).
         map_option of_int (products (run reqs d) pid) = Some (closing_stock r)))"
proof (intro conjI impI)
  assume "products d pid = Some old \<and> int4_ok q \<and> q \<noteq> old \<and> \<bar>q - old\<bar> \<le> 2147483647"
  then have "update_products pid q uid day d = Inr (logged_db pid old q uid day d)"
    by (simp add: update_products_changed)
  moreover have "products (logged_db pid old q uid day d) pid = Some q"
    by (simp add: logged_db_def)
  moreover have "snapshots_for (logged_db pid old q uid day d) pid day \<noteq> []"
    by (simp add: snapshots_for_def logged_db_def snapshots_for_upsert)
  moreover have "\<forall>r \<in> set (snapshots_for (logged_db pid old q uid day d) pid day).
      closing_stock r = of_int q"
    by (auto simp add: snapshots_for_def logged_db_def snapshots_for_upsert
        update_row_def new_row_def)
  ultimately show "\<exists>d'. update_products pid q uid day d = Inr d' \<and> products d' pid = Some q \<and>
         snapshots_for d' pid day \<noteq> [] \<and>
         (\<forall>r \<in> set (snapshots_for d' pid day). closing_stock r = of_int q)"
    by blast
next
  assume "fresh d pid day \<and> (\<forall>x \<in> set reqs. snd (snd x) = day)"
  then have "fresh (run reqs d) pid day" by (simp add: fresh_run)
  then show "\<forall>r \<in> set (snapshots_for (run reqs d) pid day).
         map_option of_int (products (run reqs d) pid) = Some (closing_stock r)"
    by (simp add: fresh_def)
qed

theorem closing_stock_is_live_quantity_witness:
  "products scenario_db 1 = Some 100 \<and> int4_ok 120 \<and> (120::int) \<noteq> 100 \<and>
   \<bar>120 - 100\<bar> \<le> (2147483647::int) \<and>
   (\<exists>d'. update_products 1 120 None 0 scenario_db = Inr d' \<and> products d' 1 = Some 120 \<and>
      snapshots_for d' 1 0 \<noteq> [] \<and>
      (\<forall>r \<in> set (snapshots_for d' 1 0). closing_stock r = 120)) \<and>
   fresh scenario_db 1 0 \<and>
   map (\<lambda>x. snd (snd x)) scenario_ab = [0, 0] \<and>
   products (run scenario_ab scenario_db) 1 = Some 90 \<and>
   length (snapshots_for (run scenario_ab scenario_db) 1 0) = 1 \<and>
   closing_stock (snapshots_for (run scenario_ab scenario_db) 1 0 ! 0) = 90"
proof -
  have h1: "products scenario_db 1 = Some 100 \<and> int4_ok 120 \<and> (120::int) \<noteq> 100 \<and>
      \<bar>120 - 100\<bar> \<le> (2147483647::int)"
    by (simp add: scenario_db_def int4_ok_def)
  have h2: "fresh scenario_db 1 0" by (simp add: fresh_def snapshots_for_def scenario_db_def)
  have h3: "map (\<lambda>x. snd (snd x)) scenario_ab = [0, 0]" by (simp add: scenario_ab_def)
  then have h3': "\<forall>x \<in> set scenario_ab. snd (snd x) = 0" by (simp add: scenario_ab_def)
  have h4: "products (run scenario_ab scenario_db) 1 = Some 90" by code_simp
  have h5: "length (snapshots_for (run scenario_ab scenario_db) 1 0) = 1" by code_simp
  then have mem: "snapshots_for (run scenario_ab scenario_db) 1 0 ! 0 \<in>
      set (snapshots_for (run scenario_ab scenario_db) 1 0)"
    by simp
  note inst = closing_stock_is_live_quantity [where d = scenario_db and pid = 1 and old = 100
      and q = 120 and uid = None and day = 0 and reqs = scenario_ab]
  from inst h1 have first: "\<exists>d'. update_products 1 120 None 0 scenario_db = Inr d' \<and>
      products d' 1 = Some 120 \<and> snapshots_for d' 1 0 \<noteq> [] \<and>
      (\<forall>r \<in> set (snapshots_for d' 1 0). closing_stock r = 120)"
    by simp
  from inst h2 h3' have "\<forall>r \<in> set (snapshots_for (run scenario_ab scenario_db) 1 0).
      map_option of_int (products (run scenario_ab scenario_db) 1) = Some (closing_stock r)"
    by blast
  with mem h4 have "closing_stock (snapshots_for (run scenario_ab scenario_db) 1 0 ! 0) = 90"
    by simp
  with h1 h2 h3 h4 h5 first show ?thesis by simp
qed

subsection \<open>C5: writing the current quantity again\<close>

text \<open>
  C5. An UPDATE that sets a product's quantity to the value it already has returns the
  database as it was: no ledger entry is appended and no snapshot row is created or changed.
\<close>

theorem same_quantity_is_noop:
  assumes "products d pid = Some q" and "int4_ok q"
  shows "update_products pid q uid day d = Inr d"
  using assms by (rule update_products_same)

theorem same_quantity_is_noop_witness:
  "products scenario_db 1 = Some 100 \<and> int4_ok 100 \<and>
   update_products 1 100 None 0 scenario_db = Inr scenario_db"
  using same_quantity_is_noop [of scenario_db 1 100 None 0]
  by (simp add: scenario_db_def int4_ok_def)

subsection \<open>C6: what the trigger logs for an UPDATE\<close>

text \<open>
  The claim C6 as stated fails on the code. Scenario A sends the purchase of 20 units as the
  only statement the schema offers, the UPDATE of the product from 100 to 120: the trigger
  logs it as an \<open>adjustment\<close> with reference type \<open>manual\<close>, and the day's snapshot
  counts it under adjustments, not under purchases.
\<close>

theorem purchase_is_logged_as_manual_adjustment:
  "inventory_history (commit scenario_db (update_products 1 120 None 0 scenario_db)) =
     [\<lparr>hist_product_id = 1, activity_type = ''adjustment'', quantity_before = 100,
       quantity_change = 20, quantity_after = 120, reference_type = Some ''manual'',
       reference_id = None, hist_notes = Some ''Manual stock adjustment'',
       created_by = None\<rparr>] \<and>
   daily_inventory_snapshots (commit scenario_db (update_products 1 120 None 0 scenario_db)) =
     [\<lparr>snap_product_id = 1, snapshot_date = 0, opening_stock = 120, purchases = 0,
       sales = 0, adjustments = 20, closing_stock = 120, max_stock = 120\<rparr>] \<and>
   map activity_type
     (inventory_history (commit scenario_db (update_products 1 120 None 0 scenario_db))) \<noteq>
     [''purchase''] \<and>
   map reference_type
     (inventory_history (commit scenario_db (update_products 1 120 None 0 scenario_db))) \<noteq>
     [Some ''purchase_order'']"
proof -
  have "update_products 1 120 None 0 scenario_db = Inr (logged_db 1 100 120 None 0 scenario_db)"
    by (rule update_products_changed) (simp_all add: scenario_db_def int4_ok_def)
  then show ?thesis
    by (simp add: commit_def logged_db_def scenario_db_def upsert_rows_def new_row_def)
qed

text \<open>
  C6, amended. For every quantity change made by an UPDATE of a product, whichever flow sends
  it, the trigger does not bypass the classifier: it appends one ledger entry whose category
  is the one of the sign of the change, whose reference type is \<open>manual\<close> and whose
  reference id is NULL. The UPDATE carries no category and no reference, and the trigger
  function reads only the old and the new row.
\<close>

theorem every_change_is_logged_as_manual:
  assumes "products d pid = Some old" and "int4_ok q" and "q \<noteq> old"
      and "\<bar>q - old\<bar> \<le> 2147483647"
  shows "\<exists>d' e. update_products pid q uid day d = Inr d' \<and>
           inventory_history d' = inventory_history d @ [e] \<and>
           activity_type e = (if q < old then ''consumption'' else ''adjustment'') \<and>
           reference_type e = Some ''manual'' \<and> reference_id e = None"
proof -
  let ?e = "last (inventory_history (logged_db pid old q uid day d))"
  from assms have "update_products pid q uid day d = Inr (logged_db pid old q uid day d)"
    by (rule update_products_changed)
  moreover have "inventory_history (logged_db pid old q uid day d) = inventory_history d @ [?e]"
    by (simp add: logged_db_def)
  moreover have "activity_type ?e = (if q < old then ''consumption'' else ''adjustment'') \<and>
      reference_type ?e = Some ''manual'' \<and> reference_id ?e = None"
    by (simp add: logged_db_def)
  ultimately show ?thesis by blast
qed

text \<open>Scenario A: the purchase of 20 units, sent as the UPDATE from 100 to 120.\<close>

theorem every_change_is_logged_as_manual_witness:
  "products scenario_db 1 = Some 100 \<and> int4_ok 120 \<and> (120::int) \<noteq> 100 \<and>
   \<bar>120 - 100\<bar> \<le> (2147483647::int) \<and>
   (\<exists>d' e. update_products 1 120 None 0 scenario_db = Inr d' \<and>
      inventory_history d' = inventory_history scenario_db @ [e] \<and>
      activity_type e = ''adjustment'' \<and>
      reference_type e = Some ''manual'' \<and> reference_id e = None)"
proof -
  have h1: "products scenario_db 1 = Some 100" by (simp add: scenario_db_def)
  have h2: "int4_ok 120" by (simp add: int4_ok_def)
  have h3: "(120::int) \<noteq> 100" by simp
  have h4: "\<bar>120 - 100\<bar> \<le> (2147483647::int)" by simp
  from h1 h2 h3 h4 every_change_is_logged_as_manual [OF h1 h2 h3 h4, of None 0]
  show ?thesis by simp
qed

subsection \<open>C7: what the ledger insert and the procedure reject\<close>

text \<open>
  The claim C7 as stated fails on the code. The table \<^verbatim>\<open>inventory_history\<close> accepts a row
  whose change is zero and whose quantity_after is not quantity_before + quantity_change, and
  update_daily_snapshot for the unknown product 7 returns without an error and without a
  change.
\<close>

theorem ledger_insert_accepts_zero_delta:
  "products scenario_db 7 = None \<and>
   insert_inventory_history {} zero_delta_row scenario_db =
     Inr (scenario_db\<lparr>inventory_history := [zero_delta_row]\<rparr>) \<and>
   quantity_change zero_delta_row = 0 \<and>
   quantity_after zero_delta_row \<noteq> quantity_before zero_delta_row + quantity_change zero_delta_row \<and>
   update_daily_snapshot 7 ''purchase'' 5 0 scenario_db = Inr scenario_db"
  by (simp add: scenario_db_def zero_delta_row_def insert_inventory_history_def
      activity_types_def reference_types_def update_daily_snapshot_def
      update_daily_snapshot_body_def snapshot_exists_def snapshots_for_def)

text \<open>
  C7, amended. The ledger insert does not validate the quantities: when the table accepts a
  row, it accepts the same row with any quantity_before, quantity_change and quantity_after
  in their place, a zero change and a broken arithmetic identity included. An INSERT whose
  product id references no product is rejected, with a foreign key violation unless a CHECK
  constraint rejects the row first. For an unknown product with no snapshot row,
  update_daily_snapshot returns without an error and without a change; so does the UPDATE
  of an unknown product when the new quantity is in the range of \<^verbatim>\<open>integer\<close>.
\<close>

theorem ledger_insert_ignores_quantities:
  "(insert_inventory_history auth_users r d = Inr d1 \<longrightarrow>
      insert_inventory_history auth_users
          (r\<lparr>quantity_before := b, quantity_change := c, quantity_after := a\<rparr>) d =
        Inr (d\<lparr>inventory_history := inventory_history d @
               [r\<lparr>quantity_before := b, quantity_change := c, quantity_after := a\<rparr>]\<rparr>)) \<and>
   (products d (hist_product_id r) = None \<longrightarrow>
      insert_inventory_history auth_users r d = Inl foreign_key_violation \<or>
      insert_inventory_history auth_users r d = Inl check_violation) \<and>
   (products d p = None \<and> snapshots_for d p day = [] \<longrightarrow>
      update_daily_snapshot p ty m day d = Inr d) \<and>
   (products d p = None \<and> int4_ok q \<longrightarrow> update_products p q uid day d = Inr d)"
proof (intro conjI impI)
  assume "insert_inventory_history auth_users r d = Inr d1"
  then show "insert_inventory_history auth_users
          (r\<lparr>quantity_before := b, quantity_change := c, quantity_after := a\<rparr>) d =
        Inr (d\<lparr>inventory_history := inventory_history d @
               [r\<lparr>quantity_before := b, quantity_change := c, quantity_after := a\<rparr>]\<rparr>)"
    by (simp add: insert_inventory_history_def split: if_splits)
next
  assume "products d (hist_product_id r) = None"
  then show "insert_inventory_history auth_users r d = Inl foreign_key_violation \<or>
      insert_inventory_history auth_users r d = Inl check_violation"
    by (simp add: insert_inventory_history_def)
next
  assume "products d p = None \<and> snapshots_for d p day = []"
  then show "update_daily_snapshot p ty m day d = Inr d"
    by (simp add: update_daily_snapshot_unknown)
next
  assume "products d p = None \<and> int4_ok q"
  then show "update_products p q uid day d = Inr d"
    by (simp add: update_products_unknown)
qed

text \<open>
  At the database of Scenario A: the table accepts the row with the consistent quantities
  (100, 150, 250), hence also with (100, 0, 250); the same row for the unknown product 7 is
  rejected; the procedure and the UPDATE for product 7 change nothing.
\<close>

theorem ledger_insert_ignores_quantities_witness:
  "insert_inventory_history {} (zero_delta_row\<lparr>quantity_change := 150\<rparr>) scenario_db =
     Inr (scenario_db\<lparr>inventory_history := [zero_delta_row\<lparr>quantity_change := 150\<rparr>]\<rparr>) \<and>
   insert_inventory_history {} zero_delta_row scenario_db =
     Inr (scenario_db\<lparr>inventory_history := [zero_delta_row]\<rparr>) \<and>
   products scenario_db 7 = None \<and>
   insert_inventory_history {} (zero_delta_row\<lparr>hist_product_id := 7\<rparr>) scenario_db =
     Inl foreign_key_violation \<and>
   snapshots_for scenario_db 7 0 = [] \<and>
   update_daily_snapshot 7 ''purchase'' 5 0 scenario_db = Inr scenario_db \<and>
   int4_ok 5 \<and>
   update_products 7 5 None 0 scenario_db = Inr scenario_db"
proof -
  have h0: "insert_inventory_history {} (zero_delta_row\<lparr>quantity_change := 150\<rparr>) scenario_db =
     Inr (scenario_db\<lparr>inventory_history := [zero_delta_row\<lparr>quantity_change := 150\<rparr>]\<rparr>)"
    by (simp add: insert_inventory_history_def zero_delta_row_def scenario_db_def
        activity_types_def reference_types_def)
  have same: "zero_delta_row\<lparr>quantity_change := 150\<rparr>
      \<lparr>quantity_before := 100, quantity_change := 0, quantity_after := 250\<rparr> = zero_delta_row"
    by (simp add: zero_delta_row_def)
  have empty: "inventory_history scenario_db = []" by (simp add: scenario_db_def)
  have h1: "products scenario_db 7 = None" by (simp add: scenario_db_def)
  have h1': "products scenario_db (hist_product_id (zero_delta_row\<lparr>hist_product_id := 7\<rparr>)) = None"
    by (simp add: scenario_db_def)
  have h2: "snapshots_for scenario_db 7 0 = []" by (simp add: scenario_db_def snapshots_for_def)
  have h3: "int4_ok 5" by (simp add: int4_ok_def)
  have types: "insert_inventory_history {} (zero_delta_row\<lparr>hist_product_id := 7\<rparr>) scenario_db \<noteq>
      Inl check_violation"
    by (simp add: insert_inventory_history_def zero_delta_row_def scenario_db_def
        activity_types_def reference_types_def)
  note t1 = ledger_insert_ignores_quantities [where auth_users = "{}"
      and r = "zero_delta_row\<lparr>quantity_change := 150\<rparr>" and d = scenario_db
      and b = 100 and c = 0 and a = 250, THEN conjunct1, rule_format, OF h0]
  note t2 = ledger_insert_ignores_quantities [where auth_users = "{}"
      and r = "zero_delta_row\<lparr>hist_product_id := 7\<rparr>" and d = scenario_db,
      THEN conjunct2, THEN conjunct1, rule_format, OF h1']
  note t3 = ledger_insert_ignores_quantities [where d = scenario_db and p = 7 and day = 0
      and ty = "''purchase''" and m = 5, THEN conjunct2, THEN conjunct2, THEN conjunct1,
      rule_format, OF conjI [OF h1 h2]]
  note t4 = ledger_insert_ignores_quantities [where d = scenario_db and p = 7 and q = 5
      and uid = None and day = 0, THEN conjunct2, THEN conjunct2, THEN conjunct2,
      rule_format, OF conjI [OF h1 h3]]
  from t1 same empty have "insert_inventory_history {} zero_delta_row scenario_db =
     Inr (scenario_db\<lparr>inventory_history := [zero_delta_row]\<rparr>)"
    by simp
  moreover from t2 types
  have "insert_inventory_history {} (zero_delta_row\<lparr>hist_product_id := 7\<rparr>) scenario_db =
     Inl foreign_key_violation"
    by blast
  ultimately show ?thesis using h0 h1 h2 h3 t3 t4 by simp
qed

subsection \<open>C8: one snapshot per product and day\<close>

text \<open>
  C8. From a table with at most one snapshot row per product and date, every schedule of
  client transactions and of the two statements of concurrent calls of update_daily_snapshot
  leaves at most one row per product and date, also when a writer enters the INSERT branch
  on a stale \<^verbatim>\<open>v_snapshot_exists\<close>: the UNIQUE constraint then rejects its INSERT.
\<close>

theorem one_snapshot_per_product_and_day:
  assumes "snapshot_unique d"
  shows "length (snapshots_for (fst (schedule es (d, v))) p day) \<le> 1"
proof -
  from assms have "snapshot_unique (fst (schedule es (d, v)))"
    by (simp add: snapshot_unique_schedule)
  then show ?thesis by (simp add: snapshot_unique_def)
qed

theorem one_snapshot_per_product_and_day_witness:
  "snapshot_unique scenario_db \<and>
   length (snapshots_for (fst (schedule scenario_e (scenario_db, \<lambda>w. False))) 1 0) = 1"
proof -
  have h: "snapshot_unique scenario_db"
    by (simp add: snapshot_unique_def snapshots_for_def scenario_db_def)
  have "snapshots_for (fst (schedule scenario_e (scenario_db, \<lambda>w. False))) 1 0 \<noteq> []"
    by code_simp
  with one_snapshot_per_product_and_day [OF h, of scenario_e "\<lambda>w. False" 1 0] h
  show ?thesis by (cases "snapshots_for (fst (schedule scenario_e (scenario_db, \<lambda>w. False))) 1 0") auto
qed

subsection \<open>C9: the running maximum\<close>

text \<open>
  C9. When update_daily_snapshot finds the day's snapshot of a known product, the new
  max_stock is the maximum of the old max_stock and the product's live quantity. So the
  max_stock of a row never decreases: not by a call of the procedure, and not by any
  sequence of statements.
\<close>

theorem max_stock_is_running_maximum:
  "(products d p = Some q \<and> snapshots_for d p day \<noteq> [] \<longrightarrow>
      (\<exists>d'. update_daily_snapshot p ty m day d = Inr d' \<and>
         map max_stock (snapshots_for d' p day) =
           map (\<lambda>r. max (max_stock r) (of_int q)) (snapshots_for d p day))) \<and>
   (update_daily_snapshot p ty m day d = Inr d1 \<longrightarrow>
      (\<forall>i < length (daily_inventory_snapshots d).
         snapshot_match p' day' (daily_inventory_snapshots d1 ! i) =
           snapshot_match p' day' (daily_inventory_snapshots d ! i) \<and>
         max_stock (daily_inventory_snapshots d ! i) \<le>
           max_stock (daily_inventory_snapshots d1 ! i))) \<and>
   (\<forall>i < length (daily_inventory_snapshots d).
      snapshot_match p' day' (daily_inventory_snapshots (run reqs d) ! i) =
        snapshot_match p' day' (daily_inventory_snapshots d ! i) \<and>
      max_stock (daily_inventory_snapshots d ! i) \<le>
        max_stock (daily_inventory_snapshots (run reqs d) ! i))"
proof (intro conjI impI)
  assume "products d p = Some q \<and> snapshots_for d p day \<noteq> []"
  then show "\<exists>d'. update_daily_snapshot p ty m day d = Inr d' \<and>
         map max_stock (snapshots_for d' p day) =
           map (\<lambda>r. max (max_stock r) (of_int q)) (snapshots_for d p day)"
    by (simp add: update_daily_snapshot_known snapshots_for_def snapshots_for_upsert
        update_row_def)
next
  assume "update_daily_snapshot p ty m day d = Inr d1"
  then have "extends (daily_inventory_snapshots d) (daily_inventory_snapshots d1)"
    by (rule extends_update_daily_snapshot)
  then show "\<forall>i < length (daily_inventory_snapshots d).
         snapshot_match p' day' (daily_inventory_snapshots d1 ! i) =
           snapshot_match p' day' (daily_inventory_snapshots d ! i) \<and>
         max_stock (daily_inventory_snapshots d ! i) \<le>
           max_stock (daily_inventory_snapshots d1 ! i)"
    by (simp add: extends_def later_row_def snapshot_match_def)
next
  have "extends (daily_inventory_snapshots d) (daily_inventory_snapshots (run reqs d))"
    by (rule extends_run)
  then show "\<forall>i < length (daily_inventory_snapshots d).
      snapshot_match p' day' (daily_inventory_snapshots (run reqs d) ! i) =
        snapshot_match p' day' (daily_inventory_snapshots d ! i) \<and>
      max_stock (daily_inventory_snapshots d ! i) \<le>
        max_stock (daily_inventory_snapshots (run reqs d) ! i)"
    by (simp add: extends_def later_row_def snapshot_match_def)
qed

theorem max_stock_is_running_maximum_witness:
  "products scenario_b_db 1 = Some 90 \<and> snapshots_for scenario_b_db 1 0 \<noteq> [] \<and>
   map max_stock (snapshots_for scenario_b_db 1 0) = [120] \<and>
   (\<exists>d'. update_daily_snapshot 1 ''sale'' 30 0 scenario_b_db = Inr d' \<and>
      map max_stock (snapshots_for d' 1 0) = [120] \<and>
      max_stock (daily_inventory_snapshots scenario_b_db ! 0) \<le>
        max_stock (daily_inventory_snapshots d' ! 0)) \<and>
   0 < length (daily_inventory_snapshots scenario_b_db) \<and>
   max_stock (daily_inventory_snapshots scenario_b_db ! 0) \<le>
     max_stock (daily_inventory_snapshots (run [(Update_quantity 1 95, None, 0)]
       scenario_b_db) ! 0)"
proof -
  have h1: "products scenario_b_db 1 = Some 90" by (simp add: scenario_b_db_def)
  have h2: "map max_stock (snapshots_for scenario_b_db 1 0) = [120]"
    by (simp add: scenario_b_db_def snapshots_for_def snapshot_match_def)
  then have h3: "snapshots_for scenario_b_db 1 0 \<noteq> []" by auto
  have h4: "0 < length (daily_inventory_snapshots scenario_b_db)"
    by (simp add: scenario_b_db_def)
  from h1 h2 h3
    max_stock_is_running_maximum [where d = scenario_b_db and p = 1 and q = 90
      and day = 0 and ty = "''sale''" and m = 30, THEN conjunct1]
  obtain d' where d': "update_daily_snapshot 1 ''sale'' 30 0 scenario_b_db = Inr d'"
    and m: "map max_stock (snapshots_for d' 1 0) = [120]"
    by auto
  from d' h4
    max_stock_is_running_maximum [where d = scenario_b_db and p = 1 and day = 0
      and ty = "''sale''" and m = 30 and ?d1.0 = d' and p' = 1 and day' = 0,
      THEN conjunct2, THEN conjunct1]
  have le: "max_stock (daily_inventory_snapshots scenario_b_db ! 0) \<le>
      max_stock (daily_inventory_snapshots d' ! 0)"
    by simp
  from h4
    max_stock_is_running_maximum [where d = scenario_b_db and p' = 1 and day' = 0
      and reqs = "[(Update_quantity 1 95, None, 0)]", THEN conjunct2, THEN conjunct2]
  have "max_stock (daily_inventory_snapshots scenario_b_db ! 0) \<le>
     max_stock (daily_inventory_snapshots (run [(Update_quantity 1 95, None, 0)]
       scenario_b_db) ! 0)"
    by simp
  with h1 h2 h3 h4 d' m le show ?thesis by simp
qed

subsection \<open>C10: the snapshot the first write of a day creates\<close>

text \<open>
  C10. When a quantity-changing UPDATE finds no snapshot of the product for the day, the
  trigger creates one whose opening_stock, closing_stock and max_stock are all the quantity
  after the change (the trigger runs after the row is written). No later call of
  update_daily_snapshot and no later statement changes the opening_stock of a row.
\<close>

theorem first_write_seeds_snapshot:
  "(products d pid = Some old \<and> int4_ok q \<and> q \<noteq> old \<and> \<bar>q - old\<bar> \<le> 2147483647 \<and>
    snapshots_for d pid day = [] \<longrightarrow>
      (\<exists>d' r. update_products pid q uid day d = Inr d' \<and> snapshots_for d' pid day = [r] \<and>
         opening_stock r = of_int q \<and> closing_stock r = of_int q \<and>
         max_stock r = of_int q)) \<and>
   (update_daily_snapshot p ty m day d = Inr d1 \<longrightarrow>
      (\<forall>i < length (daily_inventory_snapshots d).
         snapshot_match p' day' (daily_inventory_snapshots d1 ! i) =
           snapshot_match p' day' (daily_inventory_snapshots d ! i) \<and>
         opening_stock (daily_inventory_snapshots d1 ! i) =
           opening_stock (daily_inventory_snapshots d ! i))) \<and>
   (\<forall>i < length (daily_inventory_snapshots d).
      snapshot_match p' day' (daily_inventory_snapshots (run reqs d) ! i) =
        snapshot_match p' day' (daily_inventory_snapshots d ! i) \<and>
      opening_stock (daily_inventory_snapshots (run reqs d) ! i) =
        opening_stock (daily_inventory_snapshots d ! i))"
proof (intro conjI impI)
  assume a: "products d pid = Some old \<and> int4_ok q \<and> q \<noteq> old \<and>
    \<bar>q - old\<bar> \<le> 2147483647 \<and> snapshots_for d pid day = []"
  let ?ty = "if q < old then ''consumption'' else ''adjustment''"
  let ?r = "new_row pid day ?ty (of_int \<bar>q - old\<bar>) q"
  from a have "update_products pid q uid day d = Inr (logged_db pid old q uid day d)"
    by (simp add: update_products_changed)
  moreover from a have "snapshots_for (logged_db pid old q uid day d) pid day = [?r]"
    by (simp add: snapshots_for_def logged_db_def snapshots_for_upsert)
  moreover have "opening_stock ?r = of_int q \<and> closing_stock ?r = of_int q \<and>
      max_stock ?r = of_int q"
    by (simp add: new_row_def)
  ultimately show "\<exists>d' r. update_products pid q uid day d = Inr d' \<and>
         snapshots_for d' pid day = [r] \<and>
         opening_stock r = of_int q \<and> closing_stock r = of_int q \<and> max_stock r = of_int q"
    by blast
next
  assume "update_daily_snapshot p ty m day d = Inr d1"
  then have "extends (daily_inventory_snapshots d) (daily_inventory_snapshots d1)"
    by (rule extends_update_daily_snapshot)
  then show "\<forall>i < length (daily_inventory_snapshots d).
         snapshot_match p' day' (daily_inventory_snapshots d1 ! i) =
           snapshot_match p' day' (daily_inventory_snapshots d ! i) \<and>
         opening_stock (daily_inventory_snapshots d1 ! i) =
           opening_stock (daily_inventory_snapshots d ! i)"
    by (simp add: extends_def later_row_def snapshot_match_def)
next
  have "extends (daily_inventory_snapshots d) (daily_inventory_snapshots (run reqs d))"
    by (rule extends_run)
  then show "\<forall>i < length (daily_inventory_snapshots d).
      snapshot_match p' day' (daily_inventory_snapshots (run reqs d) ! i) =
        snapshot_match p' day' (daily_inventory_snapshots d ! i) \<and>
      opening_stock (daily_inventory_snapshots (run reqs d) ! i) =
        opening_stock (daily_inventory_snapshots d ! i)"
    by (simp add: extends_def later_row_def snapshot_match_def)
qed

theorem first_write_seeds_snapshot_witness:
  "products scenario_db 1 = Some 100 \<and> int4_ok 120 \<and> (120::int) \<noteq> 100 \<and>
   \<bar>120 - 100\<bar> \<le> (2147483647::int) \<and> snapshots_for scenario_db 1 0 = [] \<and>
   (\<exists>d' r. update_products 1 120 None 0 scenario_db = Inr d' \<and> snapshots_for d' 1 0 = [r] \<and>
      opening_stock r = 120 \<and> closing_stock r = 120 \<and> max_stock r = 120) \<and>
   0 < length (daily_inventory_snapshots scenario_b_db) \<and>
   (\<exists>d1. update_daily_snapshot 1 ''sale'' 30 0 scenario_b_db = Inr d1 \<and>
      opening_stock (daily_inventory_snapshots d1 ! 0) =
        opening_stock (daily_inventory_snapshots scenario_b_db ! 0)) \<and>
   opening_stock (daily_inventory_snapshots (run [(Update_quantity 1 95, None, 0)]
       scenario_b_db) ! 0) =
     opening_stock (daily_inventory_snapshots scenario_b_db ! 0)"
proof -
  have pre: "products scenario_db 1 = Some 100 \<and> int4_ok 120 \<and> (120::int) \<noteq> 100 \<and>
    \<bar>120 - 100\<bar> \<le> (2147483647::int) \<and> snapshots_for scenario_db 1 0 = []"
    by (simp add: scenario_db_def int4_ok_def snapshots_for_def)
  have h4: "update_daily_snapshot 1 ''sale'' 30 0 scenario_b_db =
     Inr (scenario_b_db\<lparr>daily_inventory_snapshots :=
       map (\<lambda>r. if snapshot_match 1 0 r then update_row ''sale'' 30 90 r else r)
         (daily_inventory_snapshots scenario_b_db)\<rparr>)"
    by (rule update_daily_snapshot_update)
       (simp_all add: scenario_b_db_def snapshots_for_def snapshot_match_def)
  have h5: "0 < length (daily_inventory_snapshots scenario_b_db)"
    by (simp add: scenario_b_db_def)
  note t1 = first_write_seeds_snapshot [where d = scenario_db and pid = 1 and old = 100
      and q = 120 and day = 0 and uid = None, THEN conjunct1, rule_format, OF pre]
  note t2 = first_write_seeds_snapshot [where d = scenario_b_db and p = 1
      and ty = "''sale''" and m = 30 and day = 0 and p' = 1 and day' = 0,
      THEN conjunct2, THEN conjunct1, rule_format, OF h4 h5, THEN conjunct2]
  note t3 = first_write_seeds_snapshot [where d = scenario_b_db and p' = 1 and day' = 0
      and reqs = "[(Update_quantity 1 95, None, 0)]",
      THEN conjunct2, THEN conjunct2, rule_format, OF h5, THEN conjunct2]
  from h4 t2 have "\<exists>d1. update_daily_snapshot 1 ''sale'' 30 0 scenario_b_db = Inr d1 \<and>
      opening_stock (daily_inventory_snapshots d1 ! 0) =
        opening_stock (daily_inventory_snapshots scenario_b_db ! 0)"
    by blast
  with pre t1 h5 t3 show ?thesis by simp
qed

end
